theory Spec2Isabelle
  imports Complex_Main
begin

section \<open>Thermal frame acquisition (plot.py, class RobustThermalHeatmap)\<close>

subsection \<open>Python text: bytes, decoding, whitespace\<close>

text \<open>
  \<^verbatim>\<open>readline()\<close> returns \<^verbatim>\<open>bytes\<close>; they are modelled as a \<open>string\<close> (one \<open>char\<close>
  per byte).  \<^verbatim>\<open>.decode('utf-8')\<close> turns them into a Python \<^verbatim>\<open>str\<close>, a sequence of
  code points, modelled as a list of naturals.  An invalid byte sequence makes
  \<^verbatim>\<open>decode\<close> raise \<^verbatim>\<open>UnicodeDecodeError\<close>, which is a subclass of \<^verbatim>\<open>ValueError\<close>;
  here it is the value \<open>None\<close>.
\<close>

type_synonym str = "nat list"

definition cont :: "nat \<Rightarrow> bool" where
  "cont b = (128 \<le> b \<and> b < 192)"

fun utf8 :: "nat list \<Rightarrow> str option" where
  "utf8 [] = Some []"
| "utf8 (a # bs) =
     (if a < 128 then map_option ((#) a) (utf8 bs)
      else if 194 \<le> a \<and> a < 224 then
        (case bs of
           b # r \<Rightarrow>
             if cont b then map_option ((#) ((a - 192) * 64 + (b - 128))) (utf8 r)
             else None
         | _ \<Rightarrow> None)
      else if 224 \<le> a \<and> a < 240 then
        (case bs of
           b # c # r \<Rightarrow>
             (let cp = (a - 224) * 4096 + (b - 128) * 64 + (c - 128)
              in if cont b \<and> cont c \<and> 2048 \<le> cp \<and> \<not> (55296 \<le> cp \<and> cp < 57344)
                 then map_option ((#) cp) (utf8 r) else None)
         | _ \<Rightarrow> None)
      else if 240 \<le> a \<and> a < 245 then
        (case bs of
           b # c # d # r \<Rightarrow>
             (let cp = (a - 240) * 262144 + (b - 128) * 4096 + (c - 128) * 64 + (d - 128)
              in if cont b \<and> cont c \<and> cont d \<and> 65536 \<le> cp \<and> cp < 1114112
                 then map_option ((#) cp) (utf8 r) else None)
         | _ \<Rightarrow> None)
      else None)"

definition decode :: "string \<Rightarrow> str option" where
  "decode b = utf8 (map of_char b)"

text \<open>The code points for which \<^verbatim>\<open>str.isspace\<close> holds; \<^verbatim>\<open>strip()\<close> and \<^verbatim>\<open>split()\<close>
  without arguments use exactly this set.\<close>

definition isspace :: "nat \<Rightarrow> bool" where
  "isspace c = ((9 \<le> c \<and> c \<le> 13) \<or> (28 \<le> c \<and> c \<le> 32) \<or> c = 133 \<or> c = 160
     \<or> c = 5760 \<or> (8192 \<le> c \<and> c \<le> 8202) \<or> c = 8232 \<or> c = 8233 \<or> c = 8239
     \<or> c = 8287 \<or> c = 12288)"

definition strip :: "str \<Rightarrow> str" where
  "strip s = rev (dropWhile isspace (rev (dropWhile isspace s)))"

text \<open>\<^verbatim>\<open>str.split()\<close>: the maximal runs of characters that are not whitespace.\<close>

function split :: "str \<Rightarrow> str list" where
  "split [] = []"
| "split (c # r) =
     (if isspace c then split r
      else (c # takeWhile (\<lambda>x. \<not> isspace x) r) # split (dropWhile (\<lambda>x. \<not> isspace x) r))"
  by pat_completeness auto
termination
proof (relation "measure length")
  fix c :: nat and r :: str
  have "length (dropWhile (\<lambda>x. \<not> isspace x) r) \<le> length r"
    by (rule length_dropWhile_le)
  then show "(dropWhile (\<lambda>x. \<not> isspace x) r, c # r) \<in> measure length"
    by simp
qed simp_all

fun startswith :: "'a list \<Rightarrow> 'a list \<Rightarrow> bool" where
  "startswith [] s = True"
| "startswith (x # xs) [] = False"
| "startswith (x # xs) (y # ys) = (x = y \<and> startswith xs ys)"

text \<open>\<^verbatim>\<open>sub in s\<close> on strings: \<open>sub\<close> occurs in \<open>s\<close> as a contiguous run.\<close>

fun contains :: "'a list \<Rightarrow> 'a list \<Rightarrow> bool" where
  "contains sub [] = (sub = [])"
| "contains sub (y # ys) = (startswith sub (y # ys) \<or> contains sub ys)"

definition marker :: str where
  "marker = map of_char ''Thermal data:''"

subsection \<open>Exceptions\<close>

text \<open>The two exception classes the acquisition loop names, and every other
  subclass of \<^verbatim>\<open>Exception\<close>.\<close>

datatype exn = ValueError | SerialException | OtherException

subsection \<open>The serial port\<close>

text \<open>
  The state of \<^verbatim>\<open>self.ser\<close>.  \<open>inbuf\<close> holds the lines that were received before the
  program asks for them and sit in the driver's input buffer; \<open>wire\<close> holds what
  the following calls on the port will meet once the buffer is empty, in order:
  \<^item> \<open>Bytes b\<close>, a line that arrives within the read timeout;
  \<^item> \<open>Fault\<close>, a read that fails with \<^verbatim>\<open>serial.SerialException\<close>;
  \<^item> \<open>Broken e\<close>, a failure of the port itself: the next call on the port, be it
    \<^verbatim>\<open>reset_input_buffer()\<close> or \<^verbatim>\<open>readline()\<close>, raises \<open>e\<close>, and what the port
    had buffered is lost.  The class \<open>e\<close> need not be \<^verbatim>\<open>SerialException\<close>: on a
    device that has gone, \<^verbatim>\<open>reset_input_buffer()\<close> raises \<^verbatim>\<open>termios.error\<close>.

  When both are exhausted the device is silent and each read times out after two
  seconds with \<^verbatim>\<open>b''\<close>.
\<close>

datatype incoming = Bytes string | Fault | Broken exn

record port =
  inbuf :: "string list"
  wire :: "incoming list"

text \<open>\<open>reset_input_buffer\<close> is what a call of \<^verbatim>\<open>self.ser.reset_input_buffer()\<close> that
  returns leaves behind; \<open>reset_input_buffer_call\<close> is the call itself, which raises
  when the port has failed.\<close>

definition reset_input_buffer :: "port \<Rightarrow> port" where
  "reset_input_buffer p = p\<lparr>inbuf := []\<rparr>"

definition reset_input_buffer_call :: "port \<Rightarrow> exn option \<times> port" where
  "reset_input_buffer_call p =
     (case wire p of
        Broken e # w \<Rightarrow> (Some e, \<lparr>inbuf = [], wire = w\<rparr>)
      | _ \<Rightarrow> (None, reset_input_buffer p))"

definition readline :: "port \<Rightarrow> (exn + string) \<times> port" where
  "readline p =
     (case inbuf p of
        b # bs \<Rightarrow> (Inr b, p\<lparr>inbuf := bs\<rparr>)
      | [] \<Rightarrow>
          (case wire p of
             [] \<Rightarrow> (Inr [], p)
           | Bytes b # w \<Rightarrow> (Inr b, p\<lparr>wire := w\<rparr>)
           | Fault # w \<Rightarrow> (Inl SerialException, p\<lparr>wire := w\<rparr>)
           | Broken e # w \<Rightarrow> (Inl e, p\<lparr>wire := w\<rparr>)))"

text \<open>\<^verbatim>\<open>self.ser.readline().decode('utf-8').strip()\<close>\<close>

definition read_stripped :: "port \<Rightarrow> (exn + str) \<times> port" where
  "read_stripped p =
     (case readline p of
        (Inl e, p') \<Rightarrow> (Inl e, p')
      | (Inr b, p') \<Rightarrow>
          (case decode b of
             None \<Rightarrow> (Inl ValueError, p')
           | Some s \<Rightarrow> (Inr (strip s), p')))"

subsection \<open>read_thermal_data\<close>

text \<open>
  The \<^verbatim>\<open>while True\<close> loop that waits for the marker.  It has no exit but a line that
  contains the marker or an exception of a read, so it is a partial function: \<open>None\<close>
  is the loop that never ends.
\<close>

partial_function (option) wait_for_marker :: "port \<Rightarrow> (exn option \<times> port) option" where
  "wait_for_marker p =
     (case read_stripped p of
        (Inl e, p') \<Rightarrow> Some (Some e, p')
      | (Inr line, p') \<Rightarrow>
          if contains marker line then Some (None, p') else wait_for_marker p')"

text \<open>\<^verbatim>\<open>for _ in range(8)\<close>: read a line, append its tokens to \<^verbatim>\<open>data_lines\<close>.\<close>

fun read_rows :: "nat \<Rightarrow> port \<Rightarrow> str list list \<Rightarrow> (exn + str list list) \<times> port" where
  "read_rows 0 p data_lines = (Inr data_lines, p)"
| "read_rows (Suc n) p data_lines =
     (case read_stripped p of
        (Inl e, p') \<Rightarrow> (Inl e, p')
      | (Inr line, p') \<Rightarrow> read_rows n p' (data_lines @ [split line]))"

text \<open>
  \<^verbatim>\<open>[float(val) for line in data_lines for val in line]\<close>.  Python's \<^verbatim>\<open>float\<close> is the
  parameter \<open>pyfloat\<close>; \<open>None\<close> is its \<^verbatim>\<open>ValueError\<close>.  The first token it rejects
  ends the comprehension.
\<close>

fun floats :: "(str \<Rightarrow> 'a option) \<Rightarrow> str list \<Rightarrow> exn + 'a list" where
  "floats pyfloat [] = Inr []"
| "floats pyfloat (t # ts) =
     (case pyfloat t of
        None \<Rightarrow> Inl ValueError
      | Some v \<Rightarrow>
          (case floats pyfloat ts of
             Inl e \<Rightarrow> Inl e
           | Inr vs \<Rightarrow> Inr (v # vs)))"

text \<open>Arrays are lists of rows. \<^verbatim>\<open>reshape(r, c)\<close> of a flat array of \<open>r * c\<close> values.\<close>

type_synonym 'a grid = "'a list list"

fun reshape :: "nat \<Rightarrow> nat \<Rightarrow> 'a list \<Rightarrow> 'a grid" where
  "reshape 0 c xs = []"
| "reshape (Suc r) c xs = take c xs # reshape r c (drop c xs)"

definition zeros :: "nat \<Rightarrow> nat \<Rightarrow> ('a::zero) grid" where
  "zeros r c = replicate r (replicate c 0)"

text \<open>
  The body of the \<^verbatim>\<open>try\<close> block of one attempt.  \<open>Inl e\<close>: the body raised \<open>e\<close>;
  \<open>Inr (Some frame)\<close>: it reached \<^verbatim>\<open>return\<close>; \<open>Inr None\<close>: it fell through the
  \<^verbatim>\<open>if len(pixels) == 64\<close>.  The port is returned as the body left it.
\<close>

definition attempt_body ::
  "(str \<Rightarrow> 'a option) \<Rightarrow> port \<Rightarrow> ((exn + 'a grid option) \<times> port) option" where
  "attempt_body pyfloat p =
     (case reset_input_buffer_call p of
        (Some e, p0) \<Rightarrow> Some (Inl e, p0)
      | (None, p0) \<Rightarrow>
          (case wait_for_marker p0 of
             None \<Rightarrow> None
           | Some (Some e, p1) \<Rightarrow> Some (Inl e, p1)
           | Some (None, p1) \<Rightarrow>
               (case read_rows 8 p1 [] of
                  (Inl e, p2) \<Rightarrow> Some (Inl e, p2)
                | (Inr data_lines, p2) \<Rightarrow>
                    (case floats pyfloat (concat data_lines) of
                       Inl e \<Rightarrow> Some (Inl e, p2)
                     | Inr pixels \<Rightarrow>
                         if length pixels = 64 then Some (Inr (Some (reshape 8 8 pixels)), p2)
                         else Some (Inr None, p2)))))"

text \<open>
  \<^verbatim>\<open>for attempt in range(max_attempts)\<close> with its handler
  \<^verbatim>\<open>except (ValueError, serial.SerialException): continue\<close>; any other exception leaves
  the function.  After the loop: \<^verbatim>\<open>return np.zeros((8, 8))\<close>.
\<close>

fun attempts ::
  "(str \<Rightarrow> 'a option) \<Rightarrow> nat \<Rightarrow> port \<Rightarrow> ((exn + ('a::zero) grid) \<times> port) option" where
  "attempts pyfloat 0 p = Some (Inr (zeros 8 8), p)"
| "attempts pyfloat (Suc n) p =
     (case attempt_body pyfloat p of
        None \<Rightarrow> None
      | Some (Inl e, p') \<Rightarrow>
          if e = ValueError \<or> e = SerialException then attempts pyfloat n p'
          else Some (Inl e, p')
      | Some (Inr (Some frame), p') \<Rightarrow> Some (Inr frame, p')
      | Some (Inr None, p') \<Rightarrow> attempts pyfloat n p')"

definition max_attempts :: nat where
  "max_attempts = 10"

definition read_thermal_data ::
  "(str \<Rightarrow> 'a option) \<Rightarrow> port \<Rightarrow> ((exn + ('a::zero) grid) \<times> port) option" where
  "read_thermal_data pyfloat p = attempts pyfloat max_attempts p"

subsection \<open>The course of a call\<close>












subsection \<open>interpolate_thermal_data\<close>

text \<open>
  \<^verbatim>\<open>np.linspace(start, stop, num)\<close>, \<^verbatim>\<open>np.meshgrid(x, y)\<close> and \<^verbatim>\<open>ravel()\<close> on
  arrays that are lists of rows.  Coordinates live in any field.
\<close>

definition linspace :: "('c::field) \<Rightarrow> 'c \<Rightarrow> nat \<Rightarrow> 'c list" where
  "linspace start stop num = map (\<lambda>i. start + of_nat i * ((stop - start) / of_nat (num - 1))) [0..<num]"

definition meshgrid :: "'c list \<Rightarrow> 'c list \<Rightarrow> 'c grid \<times> 'c grid" where
  "meshgrid x y = (replicate (length y) x, map (\<lambda>v. replicate (length x) v) y)"

definition ravel :: "'a grid \<Rightarrow> 'a list" where
  "ravel a = concat a"

text \<open>
  \<^verbatim>\<open>scipy.interpolate.griddata(points, values, xi, method='cubic')\<close> is not code of
  this program; it is the parameter \<open>griddata\<close>, which either returns an array or
  raises.  The handler is \<^verbatim>\<open>except Exception\<close>, so every exception ends in the zero
  array.
\<close>

definition interpolate_thermal_data ::
  "(('c::field) list \<times> 'c list \<Rightarrow> 'a list \<Rightarrow> 'c grid \<times> 'c grid \<Rightarrow> exn + ('a::zero) grid)
     \<Rightarrow> 'a grid \<Rightarrow> 'a grid" where
  "interpolate_thermal_data griddata thermal_data =
     (let x = linspace 0 7 8;
          y = linspace 0 7 8;
          (X, Y) = meshgrid x y;
          xi = linspace 0 7 80;
          yi = linspace 0 7 80;
          (Xi, Yi) = meshgrid xi yi
      in case griddata (ravel X, ravel Y) (ravel thermal_data) (Xi, Yi) of
           Inr interpolated_data \<Rightarrow> interpolated_data
         | Inl e \<Rightarrow> zeros 80 80)"

text \<open>An array of \<open>r\<close> rows of \<open>c\<close> entries each.\<close>

definition has_shape :: "nat \<Rightarrow> nat \<Rightarrow> 'a grid \<Rightarrow> bool" where
  "has_shape r c g = (length g = r \<and> list_all (\<lambda>row. length row = c) g)"

subsection \<open>update and the animation\<close>

text \<open>
  The object: its port and the arrays that the two images hold.  \<^verbatim>\<open>set_array\<close> belongs
  to matplotlib; it is the parameter \<open>set_array\<close>, which for an image and an array
  either stores the array (\<open>None\<close>) or raises and leaves the image as it was.
\<close>

datatype artist = Heatmap_original | Heatmap_interpolated

record 'a heatmap =
  ser :: port
  heatmap_original :: "'a grid"
  heatmap_interpolated :: "'a grid"

text \<open>The body of the \<^verbatim>\<open>try\<close> block of \<^verbatim>\<open>update\<close>, statement by statement.\<close>

definition update_body ::
  "(str \<Rightarrow> 'a option)
     \<Rightarrow> (('c::field) list \<times> 'c list \<Rightarrow> 'a list \<Rightarrow> 'c grid \<times> 'c grid \<Rightarrow> exn + ('a::zero) grid)
     \<Rightarrow> (artist \<Rightarrow> 'a grid \<Rightarrow> exn option)
     \<Rightarrow> 'a heatmap \<Rightarrow> ((exn + artist list) \<times> 'a heatmap) option" where
  "update_body pyfloat griddata set_array self =
     (case read_thermal_data pyfloat (ser self) of
        None \<Rightarrow> None
      | Some (Inl e, p) \<Rightarrow> Some (Inl e, self\<lparr>ser := p\<rparr>)
      | Some (Inr current_frame, p) \<Rightarrow>
          (case set_array Heatmap_original current_frame of
             Some e \<Rightarrow> Some (Inl e, self\<lparr>ser := p\<rparr>)
           | None \<Rightarrow>
               (let interpolated_frame = interpolate_thermal_data griddata current_frame
                in case set_array Heatmap_interpolated interpolated_frame of
                     Some e \<Rightarrow> Some (Inl e, self\<lparr>ser := p, heatmap_original := current_frame\<rparr>)
                   | None \<Rightarrow>
                       Some (Inr [Heatmap_original, Heatmap_interpolated],
                             self\<lparr>ser := p, heatmap_original := current_frame,
                                  heatmap_interpolated := interpolated_frame\<rparr>))))"

text \<open>\<^verbatim>\<open>update(self, frame)\<close>: the body under \<^verbatim>\<open>except Exception: return []\<close>.  The
  frame number is not used.\<close>

definition update ::
  "(str \<Rightarrow> 'a option)
     \<Rightarrow> (('c::field) list \<times> 'c list \<Rightarrow> 'a list \<Rightarrow> 'c grid \<times> 'c grid \<Rightarrow> exn + ('a::zero) grid)
     \<Rightarrow> (artist \<Rightarrow> 'a grid \<Rightarrow> exn option)
     \<Rightarrow> 'a heatmap \<Rightarrow> nat \<Rightarrow> (artist list \<times> 'a heatmap) option" where
  "update pyfloat griddata set_array self frame =
     (case update_body pyfloat griddata set_array self of
        None \<Rightarrow> None
      | Some (Inl e, self') \<Rightarrow> Some ([], self')
      | Some (Inr artists, self') \<Rightarrow> Some (artists, self'))"

text \<open>
  \<^verbatim>\<open>FuncAnimation(self.fig, self.update, frames=num_frames, interval=1000, blit=True)\<close>:
  the animation calls \<^verbatim>\<open>update\<close> once for each frame number, one call after the
  other.  A call that does not return holds up the frames after it.
\<close>

fun animate ::
  "(str \<Rightarrow> 'a option)
     \<Rightarrow> (('c::field) list \<times> 'c list \<Rightarrow> 'a list \<Rightarrow> 'c grid \<times> 'c grid \<Rightarrow> exn + ('a::zero) grid)
     \<Rightarrow> (artist \<Rightarrow> 'a grid \<Rightarrow> exn option)
     \<Rightarrow> nat list \<Rightarrow> 'a heatmap \<Rightarrow> 'a heatmap option" where
  "animate pyfloat griddata set_array [] self = Some self"
| "animate pyfloat griddata set_array (frame # frames) self =
     (case update pyfloat griddata set_array self frame of
        None \<Rightarrow> None
      | Some (artists, self') \<Rightarrow> animate pyfloat griddata set_array frames self')"

definition start_visualization ::
  "(str \<Rightarrow> 'a option)
     \<Rightarrow> (('c::field) list \<times> 'c list \<Rightarrow> 'a list \<Rightarrow> 'c grid \<times> 'c grid \<Rightarrow> exn + ('a::zero) grid)
     \<Rightarrow> (artist \<Rightarrow> 'a grid \<Rightarrow> exn option)
     \<Rightarrow> nat \<Rightarrow> 'a heatmap \<Rightarrow> 'a heatmap option" where
  "start_visualization pyfloat griddata set_array num_frames self =
     animate pyfloat griddata set_array [0..<num_frames] self"

subsection \<open>Vocabulary for received lines\<close>

text \<open>What a received line means to the reader: its tokens, whether it counts as a
  marker line, and whether the marker search passes over it.\<close>

definition tokens :: "string \<Rightarrow> str list" where
  "tokens b = (case decode b of None \<Rightarrow> [] | Some s \<Rightarrow> split (strip s))"

definition is_marker_line :: "string \<Rightarrow> bool" where
  "is_marker_line b = (case decode b of None \<Rightarrow> False | Some s \<Rightarrow> contains marker (strip s))"

definition plain_line :: "string \<Rightarrow> bool" where
  "plain_line b = (case decode b of None \<Rightarrow> False | Some s \<Rightarrow> \<not> contains marker (strip s))"

text \<open>A frame as the device sends it: a marker line and the payload lines after it.
  \<open>wrong_total\<close> is a frame with eight decodable payload lines whose tokens do not
  number 64.\<close>

definition frame_lines :: "string \<times> string list \<Rightarrow> incoming list" where
  "frame_lines blk = Bytes (fst blk) # map Bytes (snd blk)"

definition wrong_total :: "string \<times> string list \<Rightarrow> bool" where
  "wrong_total blk =
     (is_marker_line (fst blk) \<and> length (snd blk) = 8 \<and> list_all (\<lambda>b. decode b \<noteq> None) (snd blk)
      \<and> length (concat (map tokens (snd blk))) \<noteq> 64)"

text \<open>What a call meets on the wire: \<open>raises\<close> holds when the call raises (the port
  fails, or the bytes are not UTF-8), \<open>no_marker\<close> when it yields neither a marker
  line nor an exception of a class that the handler of the acquisition loop lets
  through.\<close>

definition raises :: "incoming \<Rightarrow> bool" where
  "raises x = (case x of Fault \<Rightarrow> True | Bytes b \<Rightarrow> decode b = None | Broken e \<Rightarrow> True)"

definition no_marker :: "incoming \<Rightarrow> bool" where
  "no_marker x =
     (case x of
        Fault \<Rightarrow> True
      | Bytes b \<Rightarrow> \<not> is_marker_line b
      | Broken e \<Rightarrow> e = ValueError \<or> e = SerialException)"

text \<open>\<open>failed_attempts pyfloat n p\<close> is the port after \<open>n\<close> attempts in a row, counted
  from \<open>p\<close>, that each end in \<^verbatim>\<open>ValueError\<close> or \<^verbatim>\<open>SerialException\<close> or in a token
  count other than 64; it is \<open>None\<close> when one of them ends otherwise.\<close>

fun failed_attempts :: "(str \<Rightarrow> 'a option) \<Rightarrow> nat \<Rightarrow> port \<Rightarrow> port option" where
  "failed_attempts pyfloat 0 p = Some p"
| "failed_attempts pyfloat (Suc n) p =
     (case attempt_body pyfloat p of
        Some (Inl e, p') \<Rightarrow>
          if e = ValueError \<or> e = SerialException then failed_attempts pyfloat n p' else None
      | Some (Inr None, p') \<Rightarrow> failed_attempts pyfloat n p'
      | _ \<Rightarrow> None)"

text \<open>The values that \<^verbatim>\<open>float\<close> gives for the tokens of the payload lines, in the order
  in which the comprehension visits them.\<close>

definition parsed :: "(str \<Rightarrow> 'a option) \<Rightarrow> string list \<Rightarrow> 'a list" where
  "parsed pyfloat rows = map (the \<circ> pyfloat) (concat (map tokens rows))"

text \<open>An instance of \<open>pyfloat\<close> for concrete runs: \<^verbatim>\<open>float\<close> on the one-character
  tokens \<^verbatim>\<open>0\<close> to \<^verbatim>\<open>9\<close>, with integers for the values.  Every other token is
  rejected, which agrees with \<^verbatim>\<open>float\<close> on the words of the marker.\<close>

definition digit_float :: "str \<Rightarrow> int option" where
  "digit_float t =
     (case t of
        [c] \<Rightarrow> if 48 \<le> c \<and> c \<le> 57 then Some (int c - 48) else None
      | _ \<Rightarrow> None)"

text \<open>Two instances of \<open>griddata\<close> for concrete runs: one that returns an array of
  zeros of the shape of the query grid, and one that always raises.\<close>

definition flat_griddata ::
  "rat list \<times> rat list \<Rightarrow> int list \<Rightarrow> rat grid \<times> rat grid \<Rightarrow> exn + int grid" where
  "flat_griddata points vals xi = Inr (map (map (\<lambda>v. 0)) (fst xi))"




section \<open>Properties\<close>

subsection \<open>Reading from the port\<close>

lemma marker_not_Nil: "marker \<noteq> []"
  by (simp add: marker_def)

lemma read_stripped_silent:
  "read_stripped \<lparr>inbuf = [], wire = []\<rparr> = (Inr [], \<lparr>inbuf = [], wire = []\<rparr>)"
  by (simp add: read_stripped_def readline_def decode_def strip_def)

lemma read_stripped_Fault:
  "read_stripped \<lparr>inbuf = [], wire = Fault # w\<rparr> = (Inl SerialException, \<lparr>inbuf = [], wire = w\<rparr>)"
  by (simp add: read_stripped_def readline_def)

lemma read_stripped_Broken:
  "read_stripped \<lparr>inbuf = [], wire = Broken e # w\<rparr> = (Inl e, \<lparr>inbuf = [], wire = w\<rparr>)"
  by (simp add: read_stripped_def readline_def)

lemma read_stripped_Bytes:
  "read_stripped \<lparr>inbuf = [], wire = Bytes b # w\<rparr> =
     (case decode b of None \<Rightarrow> Inl ValueError | Some s \<Rightarrow> Inr (strip s), \<lparr>inbuf = [], wire = w\<rparr>)"
  by (simp add: read_stripped_def readline_def split: option.splits)

lemma wait_silent_aux:
  assumes "wait_for_marker p = Some r"
  shows "p \<noteq> \<lparr>inbuf = [], wire = []\<rparr>"
proof (rule wait_for_marker.raw_induct [where P = "\<lambda>p r. p \<noteq> \<lparr>inbuf = [], wire = []\<rparr>", OF _ assms])
  fix wfm :: "port \<Rightarrow> (exn option \<times> port) option" and p r
  assume IH: "\<And>x y. wfm x = Some y \<Longrightarrow> x \<noteq> \<lparr>inbuf = [], wire = []\<rparr>"
    and body: "(case read_stripped p of
        (Inl e, p') \<Rightarrow> Some (Some e, p')
      | (Inr line, p') \<Rightarrow>
          if contains marker line then Some (None, p') else wfm p') = Some r"
  show "p \<noteq> \<lparr>inbuf = [], wire = []\<rparr>"
  proof
    assume "p = \<lparr>inbuf = [], wire = []\<rparr>"
    with body have "wfm \<lparr>inbuf = [], wire = []\<rparr> = Some r"
      by (simp add: read_stripped_silent marker_not_Nil)
    with IH show False by blast
  qed
qed

lemma wait_silent: "wait_for_marker \<lparr>inbuf = [], wire = []\<rparr> = None"
  using wait_silent_aux by (cases "wait_for_marker \<lparr>inbuf = [], wire = []\<rparr>") auto

lemma wait_Fault:
  "wait_for_marker \<lparr>inbuf = [], wire = Fault # w\<rparr> = Some (Some SerialException, \<lparr>inbuf = [], wire = w\<rparr>)"
  by (subst wait_for_marker.simps) (simp add: read_stripped_Fault)

lemma wait_Broken:
  "wait_for_marker \<lparr>inbuf = [], wire = Broken e # w\<rparr> = Some (Some e, \<lparr>inbuf = [], wire = w\<rparr>)"
  by (subst wait_for_marker.simps) (simp add: read_stripped_Broken)

lemma wait_Bytes:
  "wait_for_marker \<lparr>inbuf = [], wire = Bytes b # w\<rparr> =
     (case decode b of
        None \<Rightarrow> Some (Some ValueError, \<lparr>inbuf = [], wire = w\<rparr>)
      | Some s \<Rightarrow>
          if contains marker (strip s) then Some (None, \<lparr>inbuf = [], wire = w\<rparr>)
          else wait_for_marker \<lparr>inbuf = [], wire = w\<rparr>)"
  by (subst wait_for_marker.simps) (simp add: read_stripped_Bytes split: option.splits)

lemma wait_buffered:
  "wait_for_marker \<lparr>inbuf = b # bs, wire = w\<rparr> =
     (case decode b of
        None \<Rightarrow> Some (Some ValueError, \<lparr>inbuf = bs, wire = w\<rparr>)
      | Some s \<Rightarrow>
          if contains marker (strip s) then Some (None, \<lparr>inbuf = bs, wire = w\<rparr>)
          else wait_for_marker \<lparr>inbuf = bs, wire = w\<rparr>)"
  by (subst wait_for_marker.simps) (simp add: read_stripped_def readline_def split: option.splits)

lemmas wait_code = wait_silent wait_Fault wait_Broken wait_Bytes wait_buffered

text \<open>A failed port is met by the call that comes first.  Whether that is the reset or
  the first read of the marker search makes no difference to the attempt, and the
  buffered input is gone either way.\<close>

lemma attempt_body_wait:
  "attempt_body pyfloat \<lparr>inbuf = ib, wire = w\<rparr> =
     (case wait_for_marker \<lparr>inbuf = [], wire = w\<rparr> of
        None \<Rightarrow> None
      | Some (Some e, p1) \<Rightarrow> Some (Inl e, p1)
      | Some (None, p1) \<Rightarrow>
          (case read_rows 8 p1 [] of
             (Inl e, p2) \<Rightarrow> Some (Inl e, p2)
           | (Inr data_lines, p2) \<Rightarrow>
               (case floats pyfloat (concat data_lines) of
                  Inl e \<Rightarrow> Some (Inl e, p2)
                | Inr pixels \<Rightarrow>
                    if length pixels = 64 then Some (Inr (Some (reshape 8 8 pixels)), p2)
                    else Some (Inr None, p2))))"
proof (cases w)
  case Nil
  then show ?thesis
    by (simp add: attempt_body_def reset_input_buffer_call_def reset_input_buffer_def)
next
  case (Cons x w')
  then show ?thesis
    by (cases x)
      (simp_all add: attempt_body_def reset_input_buffer_call_def reset_input_buffer_def wait_Broken)
qed


lemma wait_skip:
  "\<forall>b\<in>set pre. plain_line b \<Longrightarrow>
   wait_for_marker \<lparr>inbuf = [], wire = map Bytes pre @ w\<rparr> = wait_for_marker \<lparr>inbuf = [], wire = w\<rparr>"
  by (induction pre) (auto simp: wait_Bytes plain_line_def split: option.splits)

lemma wait_hit:
  "is_marker_line m \<Longrightarrow>
   wait_for_marker \<lparr>inbuf = [], wire = Bytes m # w\<rparr> = Some (None, \<lparr>inbuf = [], wire = w\<rparr>)"
  by (auto simp: wait_Bytes is_marker_line_def split: option.splits)

lemma read_rows_lines:
  "\<forall>b\<in>set rows. decode b \<noteq> None \<Longrightarrow>
   read_rows (length rows) \<lparr>inbuf = [], wire = map Bytes rows @ w\<rparr> acc =
     (Inr (acc @ map tokens rows), \<lparr>inbuf = [], wire = w\<rparr>)"
  by (induction rows arbitrary: acc) (auto simp: read_stripped_Bytes tokens_def)

lemma floats_eq:
  "floats pyfloat ts =
     (if \<forall>t\<in>set ts. pyfloat t \<noteq> None then Inr (map (the \<circ> pyfloat) ts) else Inl ValueError)"
proof (induction ts)
  case Nil
  show ?case by simp
next
  case (Cons t ts)
  show ?case
  proof (cases "pyfloat t")
    case None
    then show ?thesis by auto
  next
    case (Some v)
    then show ?thesis using Cons by auto
  qed
qed

lemma floats_length:
  "floats pyfloat ts = Inr vs \<Longrightarrow> length vs = length ts"
  by (induction ts arbitrary: vs) (auto split: option.splits sum.splits)

lemma floats_Inl:
  "floats pyfloat ts = Inl e \<Longrightarrow> e = ValueError"
  by (induction ts) (auto split: option.splits sum.splits)

lemma attempt_block:
  assumes "\<forall>b\<in>set pre. plain_line b" and "is_marker_line m"
    and "length rows = 8" and "\<forall>b\<in>set rows. decode b \<noteq> None"
  shows "attempt_body pyfloat \<lparr>inbuf = ib, wire = map Bytes pre @ Bytes m # map Bytes rows @ w\<rparr> =
     Some (case floats pyfloat (concat (map tokens rows)) of
             Inl e \<Rightarrow> Inl e
           | Inr pixels \<Rightarrow> if length pixels = 64 then Inr (Some (reshape 8 8 pixels)) else Inr None,
           \<lparr>inbuf = [], wire = w\<rparr>)"
proof -
  have "read_rows 8 \<lparr>inbuf = [], wire = map Bytes rows @ w\<rparr> [] =
      (Inr (map tokens rows), \<lparr>inbuf = [], wire = w\<rparr>)"
    using read_rows_lines [OF assms(4), of w "[]"] assms(3) by simp
  then show ?thesis
    using assms(1,2)
    by (simp add: attempt_body_wait wait_skip wait_hit split: sum.splits)
qed

lemma reshape_length: "length (reshape r c xs) = r"
  by (induction r c xs rule: reshape.induct) auto

lemma reshape_nth:
  "i < r \<Longrightarrow> j < c \<Longrightarrow> r * c \<le> length xs \<Longrightarrow> reshape r c xs ! i ! j = xs ! (c * i + j)"
proof (induction r c xs arbitrary: i rule: reshape.induct)
  case (1 c xs)
  then show ?case by simp
next
  case (2 r c xs)
  show ?case
  proof (cases i)
    case 0
    with 2 show ?thesis by simp
  next
    case (Suc k)
    with 2 show ?thesis by (simp add: add.assoc)
  qed
qed

subsection \<open>Exceptions of one attempt\<close>

text \<open>Every call on the port leaves a suffix of the wire, and an exception that is
  neither \<^verbatim>\<open>ValueError\<close> nor \<^verbatim>\<open>SerialException\<close> can only come from a failed
  port.\<close>

lemma readline_wire:
  "readline p = (x, p') \<Longrightarrow>
   set (wire p') \<subseteq> set (wire p) \<and> (\<forall>e. x = Inl e \<longrightarrow> e = SerialException \<or> Broken e \<in> set (wire p))"
  by (auto simp: readline_def split: list.splits incoming.splits)

lemma read_stripped_wire:
  assumes "read_stripped p = (x, p')"
  shows "set (wire p') \<subseteq> set (wire p)
       \<and> (\<forall>e. x = Inl e \<longrightarrow> e = ValueError \<or> e = SerialException \<or> Broken e \<in> set (wire p))"
proof -
  obtain y q where rl: "readline p = (y, q)"
    by (cases "readline p")
  from readline_wire [OF rl] rl assms show ?thesis
    by (cases y) (auto simp: read_stripped_def split: option.splits)
qed

lemma wait_wire:
  assumes "wait_for_marker p = Some r"
  shows "set (wire (snd r)) \<subseteq> set (wire p)
       \<and> (\<forall>e. fst r = Some e \<longrightarrow> e = ValueError \<or> e = SerialException \<or> Broken e \<in> set (wire p))"
proof (rule wait_for_marker.raw_induct
    [where P = "\<lambda>p r. set (wire (snd r)) \<subseteq> set (wire p)
       \<and> (\<forall>e. fst r = Some e \<longrightarrow> e = ValueError \<or> e = SerialException \<or> Broken e \<in> set (wire p))",
     OF _ assms])
  fix wfm :: "port \<Rightarrow> (exn option \<times> port) option" and p r
  assume IH: "\<And>x y. wfm x = Some y \<Longrightarrow>
      set (wire (snd y)) \<subseteq> set (wire x)
      \<and> (\<forall>e. fst y = Some e \<longrightarrow> e = ValueError \<or> e = SerialException \<or> Broken e \<in> set (wire x))"
    and body: "(case read_stripped p of
        (Inl e, p') \<Rightarrow> Some (Some e, p')
      | (Inr line, p') \<Rightarrow>
          if contains marker line then Some (None, p') else wfm p') = Some r"
  obtain x q where rs: "read_stripped p = (x, q)"
    by (cases "read_stripped p")
  note w = read_stripped_wire [OF rs]
  show "set (wire (snd r)) \<subseteq> set (wire p)
       \<and> (\<forall>e. fst r = Some e \<longrightarrow> e = ValueError \<or> e = SerialException \<or> Broken e \<in> set (wire p))"
  proof (cases x)
    case (Inl e)
    with rs body w show ?thesis by auto
  next
    case (Inr line)
    show ?thesis
    proof (cases "contains marker line")
      case True
      with Inr rs body w show ?thesis by auto
    next
      case False
      with Inr rs body have "wfm q = Some r" by simp
      from IH [OF this] w show ?thesis by blast
    qed
  qed
qed

lemma read_rows_wire:
  "read_rows n p acc = (x, p') \<Longrightarrow>
   set (wire p') \<subseteq> set (wire p)
   \<and> (\<forall>e. x = Inl e \<longrightarrow> e = ValueError \<or> e = SerialException \<or> Broken e \<in> set (wire p))"
proof (induction n arbitrary: p acc)
  case 0
  then show ?case by auto
next
  case (Suc n)
  obtain y q where rs: "read_stripped p = (y, q)"
    by (cases "read_stripped p")
  note w = read_stripped_wire [OF rs]
  show ?case
  proof (cases y)
    case (Inl e')
    with rs Suc.prems w show ?thesis by auto
  next
    case (Inr line)
    with rs Suc.prems have "read_rows n q (acc @ [split line]) = (x, p')" by simp
    from Suc.IH [OF this] w show ?thesis by blast
  qed
qed

lemma attempt_body_wire:
  assumes "attempt_body pyfloat p = Some (x, p')"
  shows "set (wire p') \<subseteq> set (wire p)
       \<and> (\<forall>e. x = Inl e \<longrightarrow> e = ValueError \<or> e = SerialException \<or> Broken e \<in> set (wire p))"
proof -
  obtain ib w where p: "p = \<lparr>inbuf = ib, wire = w\<rparr>"
    by (cases p)
  let ?p0 = "\<lparr>inbuf = [], wire = w\<rparr>"
  from assms p obtain r where wr: "wait_for_marker ?p0 = Some r"
    by (cases "wait_for_marker ?p0") (auto simp: attempt_body_wait)
  obtain eo p1 where r: "r = (eo, p1)"
    by (cases r)
  from wait_wire [OF wr] r
  have w1: "set (wire p1) \<subseteq> set w"
    and e1: "\<forall>e. eo = Some e \<longrightarrow> e = ValueError \<or> e = SerialException \<or> Broken e \<in> set w"
    by auto
  show ?thesis
  proof (cases eo)
    case (Some e)
    with assms p wr r w1 e1 show ?thesis
      by (auto simp: attempt_body_wait)
  next
    case None
    obtain y p2 where rr: "read_rows 8 p1 [] = (y, p2)"
      by (cases "read_rows 8 p1 []")
    from read_rows_wire [OF rr]
    have w2: "set (wire p2) \<subseteq> set (wire p1)"
      and e2: "\<forall>e. y = Inl e \<longrightarrow> e = ValueError \<or> e = SerialException \<or> Broken e \<in> set (wire p1)"
      by auto
    show ?thesis
    proof (cases y)
      case (Inl e)
      with assms p wr r None rr have "x = Inl e" and "p' = p2"
        by (auto simp: attempt_body_wait)
      with Inl w1 w2 e2 p show ?thesis by auto
    next
      case (Inr data_lines)
      with assms p wr r None rr have "p' = p2" and "\<forall>e. x = Inl e \<longrightarrow> e = ValueError"
        by (auto simp: attempt_body_wait split: sum.splits if_splits dest: floats_Inl)
      with w1 w2 p show ?thesis by auto
    qed
  qed
qed

text \<open>The loop: what leaves it is \<open>OtherException\<close> from a failed port; failed attempts
  in a row end in the zero frame; a frame that is returned is the zero frame of the
  exhausted budget or the frame of an attempt that reached \<^verbatim>\<open>return\<close>.\<close>

lemma attempts_raise:
  "attempts pyfloat n p = Some (Inl e, p') \<Longrightarrow>
   e = OtherException \<and> Broken OtherException \<in> set (wire p)"
proof (induction n arbitrary: p)
  case 0
  then show ?case by simp
next
  case (Suc n)
  from Suc.prems obtain x q where ab: "attempt_body pyfloat p = Some (x, q)"
    by (cases "attempt_body pyfloat p") auto
  note w = attempt_body_wire [OF ab]
  show ?case
  proof (cases x)
    case (Inl e1)
    show ?thesis
    proof (cases "e1 = ValueError \<or> e1 = SerialException")
      case True
      with Inl ab Suc.prems have "attempts pyfloat n q = Some (Inl e, p')" by auto
      from Suc.IH [OF this] w show ?thesis by auto
    next
      case False
      with Inl ab Suc.prems have "e = e1" by auto
      moreover from False have "e1 = OtherException" by (cases e1) auto
      ultimately show ?thesis using False Inl w by auto
    qed
  next
    case (Inr fo)
    show ?thesis
    proof (cases fo)
      case None
      with Inr ab Suc.prems have "attempts pyfloat n q = Some (Inl e, p')" by simp
      from Suc.IH [OF this] w show ?thesis by auto
    next
      case (Some frame)
      with Inr ab Suc.prems show ?thesis by simp
    qed
  qed
qed

lemma failed_attempts_zeros:
  "failed_attempts pyfloat n p = Some p' \<Longrightarrow> attempts pyfloat n p = Some (Inr (zeros 8 8), p')"
proof (induction n arbitrary: p)
  case 0
  then show ?case by simp
next
  case (Suc n)
  from Suc.prems obtain x q where ab: "attempt_body pyfloat p = Some (x, q)"
    by (cases "attempt_body pyfloat p") auto
  show ?case
  proof (cases x)
    case (Inl e)
    with ab Suc.prems have "e = ValueError \<or> e = SerialException" and "failed_attempts pyfloat n q = Some p'"
      by (auto split: if_splits)
    with Inl ab Suc.IH [of q] show ?thesis by auto
  next
    case (Inr fo)
    with ab Suc.prems Suc.IH [of q] show ?thesis by (cases fo) auto
  qed
qed

lemma attempts_frame:
  "attempts pyfloat n p = Some (Inr frame, p') \<Longrightarrow>
   (failed_attempts pyfloat n p = Some p' \<and> frame = zeros 8 8)
   \<or> (\<exists>q. attempt_body pyfloat q = Some (Inr (Some frame), p'))"
proof (induction n arbitrary: p)
  case 0
  then show ?case by simp
next
  case (Suc n)
  from Suc.prems obtain x q where ab: "attempt_body pyfloat p = Some (x, q)"
    by (cases "attempt_body pyfloat p") auto
  show ?case
  proof (cases x)
    case (Inl e)
    with ab Suc.prems have c: "e = ValueError \<or> e = SerialException"
      and "attempts pyfloat n q = Some (Inr frame, p')"
      by (auto split: if_splits)
    from Suc.IH [OF this(2)] Inl ab c show ?thesis by auto
  next
    case (Inr fo)
    show ?thesis
    proof (cases fo)
      case None
      with Inr ab Suc.prems have "attempts pyfloat n q = Some (Inr frame, p')" by simp
      from Suc.IH [OF this] None Inr ab show ?thesis by auto
    next
      case (Some fr)
      with Inr ab Suc.prems show ?thesis by auto
    qed
  qed
qed

lemma attempt_body_Fault:
  "attempt_body pyfloat \<lparr>inbuf = ib, wire = Fault # w\<rparr> = Some (Inl SerialException, \<lparr>inbuf = [], wire = w\<rparr>)"
  by (simp add: attempt_body_wait wait_Fault)

lemma attempt_body_Broken:
  "attempt_body pyfloat \<lparr>inbuf = ib, wire = Broken e # w\<rparr> = Some (Inl e, \<lparr>inbuf = [], wire = w\<rparr>)"
  by (simp add: attempt_body_wait wait_Broken)

lemma attempts_block:
  assumes "\<forall>b\<in>set pre. plain_line b" and "is_marker_line m"
    and "length rows = 8" and "\<forall>b\<in>set rows. decode b \<noteq> None"
    and "\<forall>t\<in>set (concat (map tokens rows)). pyfloat t \<noteq> None"
    and "length (concat (map tokens rows)) = 64"
  shows "attempts pyfloat (Suc n) \<lparr>inbuf = ib, wire = map Bytes pre @ Bytes m # map Bytes rows @ w\<rparr> =
     Some (Inr (reshape 8 8 (map (the \<circ> pyfloat) (concat (map tokens rows)))), \<lparr>inbuf = [], wire = w\<rparr>)"
  using assms(5,6) by (simp add: attempt_block [OF assms(1-4)] floats_eq)

subsection \<open>Attempts that fail\<close>

lemma attempts_Broken_other:
  "attempts pyfloat (Suc n) \<lparr>inbuf = ib, wire = Broken OtherException # w\<rparr> =
   Some (Inl OtherException, \<lparr>inbuf = [], wire = w\<rparr>)"
  by (simp add: attempt_body_Broken)

lemma attempt_skip:
  "\<forall>b\<in>set pre. plain_line b \<Longrightarrow>
   attempt_body pyfloat \<lparr>inbuf = ib, wire = map Bytes pre @ w\<rparr> = attempt_body pyfloat \<lparr>inbuf = [], wire = w\<rparr>"
  by (simp add: attempt_body_wait wait_skip)

lemma attempts_skip:
  "\<forall>b\<in>set pre. plain_line b \<Longrightarrow>
   attempts pyfloat n \<lparr>inbuf = [], wire = map Bytes pre @ w\<rparr> = attempts pyfloat n \<lparr>inbuf = [], wire = w\<rparr> \<or> n = 0"
  by (cases n) (simp_all add: attempt_skip)

lemma attempts_silent: "attempts pyfloat (Suc n) \<lparr>inbuf = ib, wire = []\<rparr> = None"
  by (simp add: attempt_body_wait wait_silent)

lemma attempts_wrong_total:
  assumes "wrong_total blk"
  shows "attempts pyfloat (Suc n) \<lparr>inbuf = ib, wire = frame_lines blk @ w\<rparr> =
         attempts pyfloat n \<lparr>inbuf = [], wire = w\<rparr>"
proof -
  from assms have m: "is_marker_line (fst blk)" and l: "length (snd blk) = 8"
    and d: "\<forall>b\<in>set (snd blk). decode b \<noteq> None"
    and t: "length (concat (map tokens (snd blk))) \<noteq> 64"
    by (simp_all add: wrong_total_def list_all_iff)
  have "attempt_body pyfloat \<lparr>inbuf = ib, wire = map Bytes [] @ Bytes (fst blk) # map Bytes (snd blk) @ w\<rparr> =
     Some (case floats pyfloat (concat (map tokens (snd blk))) of
             Inl e \<Rightarrow> Inl e
           | Inr pixels \<Rightarrow> if length pixels = 64 then Inr (Some (reshape 8 8 pixels)) else Inr None,
           \<lparr>inbuf = [], wire = w\<rparr>)"
    by (rule attempt_block) (use m l d in simp_all)
  then show ?thesis
    using t by (simp add: frame_lines_def floats_eq)
qed

lemma attempts_wrong_totals:
  "\<forall>blk\<in>set blocks. wrong_total blk \<Longrightarrow> blocks \<noteq> [] \<Longrightarrow>
   attempts pyfloat (length blocks + n) \<lparr>inbuf = ib, wire = concat (map frame_lines blocks) @ w\<rparr> =
   attempts pyfloat n \<lparr>inbuf = [], wire = w\<rparr>"
proof (induction blocks arbitrary: ib)
  case Nil
  then show ?case by simp
next
  case (Cons blk blocks)
  show ?case
  proof (cases "blocks = []")
    case True
    with Cons.prems show ?thesis by (simp add: attempts_wrong_total del: attempts.simps)
  next
    case False
    with Cons show ?thesis by (simp add: attempts_wrong_total del: attempts.simps)
  qed
qed

lemma wait_no_marker:
  "\<forall>x\<in>set w. no_marker x \<Longrightarrow>
   wait_for_marker \<lparr>inbuf = [], wire = w\<rparr> =
     (case dropWhile (\<lambda>x. \<not> raises x) w of
        [] \<Rightarrow> None
      | x # w' \<Rightarrow> Some (Some (case x of Fault \<Rightarrow> SerialException | Bytes b \<Rightarrow> ValueError | Broken e \<Rightarrow> e),
                        \<lparr>inbuf = [], wire = w'\<rparr>))"
proof (induction w)
  case Nil
  show ?case by (simp add: wait_silent)
next
  case (Cons x w)
  show ?case
  proof (cases x)
    case Fault
    then show ?thesis by (simp add: wait_Fault raises_def)
  next
    case (Broken e)
    then show ?thesis by (simp add: wait_Broken raises_def)
  next
    case (Bytes b)
    with Cons show ?thesis
      by (auto simp: wait_Bytes raises_def no_marker_def is_marker_line_def split: option.splits)
  qed
qed

lemma attempts_no_marker:
  "\<forall>x\<in>set w. no_marker x \<Longrightarrow>
   (n \<le> length (filter raises w) \<longrightarrow> (\<exists>p'. attempts pyfloat n \<lparr>inbuf = ib, wire = w\<rparr> = Some (Inr (zeros 8 8), p')))
   \<and> (length (filter raises w) < n \<longrightarrow> attempts pyfloat n \<lparr>inbuf = ib, wire = w\<rparr> = None)"
proof (induction n arbitrary: ib w)
  case 0
  show ?case by simp
next
  case (Suc n)
  show ?case
  proof (cases "dropWhile (\<lambda>x. \<not> raises x) w")
    case Nil
    then have "filter raises w = []"
      by (metis (mono_tags, lifting) dropWhile_eq_Nil_conv filter_False)
    moreover have "wait_for_marker \<lparr>inbuf = [], wire = w\<rparr> = None"
      unfolding wait_no_marker [OF Suc.prems] Nil by simp
    then have "attempt_body pyfloat \<lparr>inbuf = ib, wire = w\<rparr> = None"
      by (simp add: attempt_body_wait)
    ultimately show ?thesis by simp
  next
    case (Cons x w')
    have nm: "\<forall>x\<in>set w'. no_marker x"
      using Suc.prems Cons by (metis list.set_intros(2) set_dropWhileD)
    have rx: "raises x"
      using Cons by (metis hd_dropWhile list.distinct(1) list.sel(1))
    have "filter raises w = filter raises (dropWhile (\<lambda>x. \<not> raises x) w)"
      by (induction w) auto
    with Cons rx have len: "length (filter raises w) = Suc (length (filter raises w'))"
      by simp
    have "wait_for_marker \<lparr>inbuf = [], wire = w\<rparr> =
        Some (Some (case x of Fault \<Rightarrow> SerialException | Bytes b \<Rightarrow> ValueError | Broken e \<Rightarrow> e), \<lparr>inbuf = [], wire = w'\<rparr>)"
      unfolding wait_no_marker [OF Suc.prems] Cons by simp
    then have "attempt_body pyfloat \<lparr>inbuf = ib, wire = w\<rparr> =
        Some (Inl (case x of Fault \<Rightarrow> SerialException | Bytes b \<Rightarrow> ValueError | Broken e \<Rightarrow> e), \<lparr>inbuf = [], wire = w'\<rparr>)"
      by (simp add: attempt_body_wait)
    moreover have "x \<in> set w"
      using Cons by (metis list.set_intros(1) set_dropWhileD)
    with Suc.prems have "no_marker x"
      by blast
    ultimately have "attempts pyfloat (Suc n) \<lparr>inbuf = ib, wire = w\<rparr> = attempts pyfloat n \<lparr>inbuf = [], wire = w'\<rparr>"
      by (cases x) (auto simp: no_marker_def)
    with Suc.IH [OF nm, of "[]"] len show ?thesis by simp
  qed
qed

lemma attempts_partial_frame:
  assumes "is_marker_line m1" and "length rows = 7" and "\<forall>b\<in>set rows. decode b \<noteq> None"
    and "is_marker_line m2" and "\<exists>t\<in>set (tokens m2). pyfloat t = None"
    and "\<forall>b\<in>set payload. plain_line b"
  shows "attempts pyfloat (Suc (Suc n))
           \<lparr>inbuf = ib, wire = Bytes m1 # map Bytes rows @ Bytes m2 # map Bytes payload @ w\<rparr> =
         attempts pyfloat (Suc n) \<lparr>inbuf = [], wire = w\<rparr>"
proof -
  have dec: "\<forall>b\<in>set (rows @ [m2]). decode b \<noteq> None"
    using assms(3,4) by (auto simp: is_marker_line_def split: option.splits)
  have bad: "\<exists>t\<in>set (concat (map tokens (rows @ [m2]))). pyfloat t = None"
    using assms(5) by auto
  have "attempt_body pyfloat
      \<lparr>inbuf = ib, wire = map Bytes [] @ Bytes m1 # map Bytes (rows @ [m2]) @ (map Bytes payload @ w)\<rparr> =
     Some (case floats pyfloat (concat (map tokens (rows @ [m2]))) of
             Inl e \<Rightarrow> Inl e
           | Inr pixels \<Rightarrow> if length pixels = 64 then Inr (Some (reshape 8 8 pixels)) else Inr None,
           \<lparr>inbuf = [], wire = map Bytes payload @ w\<rparr>)"
    by (rule attempt_block) (use assms(1,2) dec in simp_all)
  moreover have "floats pyfloat (concat (map tokens (rows @ [m2]))) = Inl ValueError"
    using bad by (simp only: floats_eq) auto
  ultimately have "attempts pyfloat (Suc (Suc n))
      \<lparr>inbuf = ib, wire = Bytes m1 # map Bytes rows @ Bytes m2 # map Bytes payload @ w\<rparr> =
      attempts pyfloat (Suc n) \<lparr>inbuf = [], wire = map Bytes payload @ w\<rparr>"
    by simp
  also have "\<dots> = attempts pyfloat (Suc n) \<lparr>inbuf = [], wire = w\<rparr>"
    using assms(6) by (simp add: attempt_skip)
  finally show ?thesis .
qed

subsection \<open>Facts about concrete lines\<close>

lemma marker_line_plain_text: "is_marker_line ''Thermal data:''"
  by (simp add: is_marker_line_def decode_def strip_def isspace_def cont_def marker_def)

lemma row_1_8_decodes: "decode ''1 2 3 4 5 6 7 8'' \<noteq> None"
  by (simp add: decode_def)

lemma row_1_8_tokens:
  "tokens ''1 2 3 4 5 6 7 8'' = [[49], [50], [51], [52], [53], [54], [55], [56]]"
  by (simp add: tokens_def decode_def strip_def isspace_def)

lemma reshape_numeral:
  "reshape (numeral k) c xs = take c xs # reshape (pred_numeral k) c (drop c xs)"
  by (subst numeral_eq_Suc) (rule reshape.simps)

lemma rows_1_8_parsed:
  "parsed digit_float [''1 2 3 4 5 6 7 8'', ''1 2 3 4 5 6 7 8'', ''1 2 3 4 5 6 7 8'', ''1 2 3 4 5 6 7 8'',
      ''1 2 3 4 5 6 7 8'', ''1 2 3 4 5 6 7 8'', ''1 2 3 4 5 6 7 8'', ''1 2 3 4 5 6 7 8''] =
   [1, 2, 3, 4, 5, 6, 7, 8, 1, 2, 3, 4, 5, 6, 7, 8, 1, 2, 3, 4, 5, 6, 7, 8, 1, 2, 3, 4, 5, 6, 7, 8,
    1, 2, 3, 4, 5, 6, 7, 8, 1, 2, 3, 4, 5, 6, 7, 8, 1, 2, 3, 4, 5, 6, 7, 8, 1, 2, 3, 4, 5, 6, 7, 8]"
  by (simp add: parsed_def row_1_8_tokens digit_float_def)

lemma attempts_reset:
  "attempts pyfloat (Suc n) (p\<lparr>inbuf := b\<rparr>) = attempts pyfloat (Suc n) (p\<lparr>inbuf := []\<rparr>)"
  by (cases p) (simp add: attempt_body_wait)

lemma attempt_body_reset:
  "attempt_body pyfloat p = attempt_body pyfloat (reset_input_buffer p)"
  by (cases p) (simp add: attempt_body_wait reset_input_buffer_def)

lemma marker_line_rejected: "\<exists>t\<in>set (tokens ''Thermal data:''). digit_float t = None"
  by (simp add: tokens_def decode_def strip_def isspace_def digit_float_def)

lemma row_9_plain: "plain_line ''9 9 9 9 9 9 9 9''"
  by (simp add: plain_line_def decode_def strip_def isspace_def marker_def)

lemma row_123_decodes: "decode ''1 2 3'' \<noteq> None"
  by (simp add: decode_def)

lemma row_123_tokens: "tokens ''1 2 3'' = [[49], [50], [51]]"
  by (simp add: tokens_def decode_def strip_def isspace_def)

lemma noise_no_marker: "no_marker (Bytes ''noise'')"
  by (simp add: no_marker_def is_marker_line_def decode_def strip_def isspace_def marker_def)

lemma noise_not_raises: "\<not> raises (Bytes ''noise'')"
  by (simp add: raises_def decode_def)

lemma Fault_raises: "raises Fault" and Fault_no_marker: "no_marker Fault"
  by (simp_all add: raises_def no_marker_def)

subsection \<open>Shapes of arrays\<close>

lemma linspace_length: "length (linspace a b n) = n"
  by (simp add: linspace_def)

lemma meshgrid_shape:
  "has_shape (length y) (length x) (fst (meshgrid x y))"
  "has_shape (length y) (length x) (snd (meshgrid x y))"
  by (simp_all add: meshgrid_def has_shape_def list_all_iff)

lemma zeros_shape: "has_shape r c (zeros r c)"
  by (simp add: zeros_def has_shape_def list_all_iff)

subsection \<open>A tick whose second image fails\<close>

lemma frame_1_8_read:
  "read_thermal_data digit_float
     \<lparr>inbuf = [], wire = [Bytes ''Thermal data:'',
        Bytes ''1 2 3 4 5 6 7 8'', Bytes ''1 2 3 4 5 6 7 8'', Bytes ''1 2 3 4 5 6 7 8'', Bytes ''1 2 3 4 5 6 7 8'',
        Bytes ''1 2 3 4 5 6 7 8'', Bytes ''1 2 3 4 5 6 7 8'', Bytes ''1 2 3 4 5 6 7 8'', Bytes ''1 2 3 4 5 6 7 8'']\<rparr> =
   Some (Inr [[1, 2, 3, 4, 5, 6, 7, 8], [1, 2, 3, 4, 5, 6, 7, 8], [1, 2, 3, 4, 5, 6, 7, 8], [1, 2, 3, 4, 5, 6, 7, 8],
              [1, 2, 3, 4, 5, 6, 7, 8], [1, 2, 3, 4, 5, 6, 7, 8], [1, 2, 3, 4, 5, 6, 7, 8], [1, 2, 3, 4, 5, 6, 7, 8]],
         \<lparr>inbuf = [], wire = []\<rparr>)"
proof -
  let ?r = "''1 2 3 4 5 6 7 8''"
  let ?rows = "[?r, ?r, ?r, ?r, ?r, ?r, ?r, ?r]"
  have t: "\<forall>t\<in>set (concat (map tokens ?rows)). digit_float t \<noteq> None"
    by (simp add: row_1_8_tokens digit_float_def)
  have l: "length (concat (map tokens ?rows)) = 64"
    by (simp add: row_1_8_tokens)
  have d: "\<forall>b\<in>set ?rows. decode b \<noteq> None"
    by (simp add: row_1_8_decodes)
  have "attempts digit_float (Suc 9) \<lparr>inbuf = [], wire = map Bytes [] @ Bytes ''Thermal data:'' # map Bytes ?rows @ []\<rparr> =
      Some (Inr (reshape 8 8 (map (the \<circ> digit_float) (concat (map tokens ?rows)))), \<lparr>inbuf = [], wire = []\<rparr>)"
    by (rule attempts_block) (use marker_line_plain_text d t l in simp_all)
  moreover have "max_attempts = Suc 9"
    by (simp add: max_attempts_def)
  ultimately have "read_thermal_data digit_float \<lparr>inbuf = [], wire = Bytes ''Thermal data:'' # map Bytes ?rows\<rparr> =
      Some (Inr (reshape 8 8 (parsed digit_float ?rows)), \<lparr>inbuf = [], wire = []\<rparr>)"
    by (simp only: read_thermal_data_def parsed_def append_Nil append_Nil2 list.map)
  then show ?thesis
    by (simp add: rows_1_8_parsed reshape_numeral)
qed


subsection \<open>A tick whose acquisition raises, and the tick after it\<close>





subsection \<open>The course of a call is unique and agrees with the function\<close>
























section \<open>The claims\<close>

text \<open>
  Claim C2, as amended.  \<open>read_thermal_data\<close> never passes \<^verbatim>\<open>ValueError\<close> or
  \<^verbatim>\<open>SerialException\<close> to its caller: an attempt that raises one of them is followed by
  the next attempt, and \<open>max_attempts\<close> failed attempts in a row end in the zero frame.
  A frame that the call returns is that zero frame or the frame of an attempt that
  reached \<^verbatim>\<open>return\<close>.  But the handler names two classes only.  An exception of
  another class goes through to the caller, and it can only come from a port that has
  failed, as when \<^verbatim>\<open>reset_input_buffer()\<close> raises \<^verbatim>\<open>termios.error\<close>.
\<close>

theorem errors_retried:
  "(\<forall>e p'. read_thermal_data pyfloat p = Some (Inl e, p') \<longrightarrow>
       e = OtherException \<and> Broken OtherException \<in> set (wire p))
   \<and> (\<forall>p'. failed_attempts pyfloat max_attempts p = Some p' \<longrightarrow>
         read_thermal_data pyfloat p = Some (Inr (zeros 8 8), p'))
   \<and> (\<forall>frame p'. read_thermal_data pyfloat p = Some (Inr frame, p') \<longrightarrow>
         (failed_attempts pyfloat max_attempts p = Some p' \<and> frame = zeros 8 8)
         \<or> (\<exists>q. attempt_body pyfloat q = Some (Inr (Some frame), p')))"
  unfolding read_thermal_data_def
  using attempts_raise [of pyfloat max_attempts p] failed_attempts_zeros [of pyfloat max_attempts p]
    attempts_frame [of pyfloat max_attempts p]
  by blast

theorem errors_retried_witness:
  "read_thermal_data digit_float
     \<lparr>inbuf = [], wire = [Fault, Fault, Fault, Fault, Fault, Fault, Fault, Fault, Fault, Fault]\<rparr> =
   Some (Inr (zeros 8 8), \<lparr>inbuf = [], wire = []\<rparr>)"
proof -
  have ten: "max_attempts = Suc (Suc (Suc (Suc (Suc (Suc (Suc (Suc (Suc (Suc 0)))))))))"
    by (simp add: max_attempts_def)
  have "failed_attempts digit_float max_attempts
      \<lparr>inbuf = [], wire = [Fault, Fault, Fault, Fault, Fault, Fault, Fault, Fault, Fault, Fault]\<rparr> =
      Some \<lparr>inbuf = [], wire = []\<rparr>"
    unfolding ten by (simp add: attempt_body_Fault)
  with errors_retried [of digit_float
      "\<lparr>inbuf = [], wire = [Fault, Fault, Fault, Fault, Fault, Fault, Fault, Fault, Fault, Fault]\<rparr>"]
  show ?thesis by blast
qed

theorem failed_port_counterexample:
  "read_thermal_data digit_float \<lparr>inbuf = [], wire = [Broken OtherException]\<rparr> =
   Some (Inl OtherException, \<lparr>inbuf = [], wire = []\<rparr>)"
proof -
  have ten: "max_attempts = Suc 9" by (simp add: max_attempts_def)
  show ?thesis
    unfolding read_thermal_data_def ten by (rule attempts_Broken_other)
qed

text \<open>
  Claim C3.  When the port delivers a marker line and then eight decodable lines whose
  tokens are all accepted by \<^verbatim>\<open>float\<close> and number 64 in total, the call returns the
  8 by 8 array of the parsed values in row-major order: entry \<open>(i, j)\<close> is value
  number \<open>8 * i + j\<close>.  The witness is the stream of eight lines
  \<^verbatim>\<open>1 2 3 4 5 6 7 8\<close>, whose frame has every row equal to \<open>[1, ..., 8]\<close>.
\<close>

theorem well_formed_frame:
  assumes "is_marker_line m" and "length rows = 8" and "\<forall>b\<in>set rows. decode b \<noteq> None"
    and "\<forall>t\<in>set (concat (map tokens rows)). pyfloat t \<noteq> None"
    and "length (concat (map tokens rows)) = 64"
  shows "read_thermal_data pyfloat \<lparr>inbuf = ib, wire = Bytes m # map Bytes rows @ w\<rparr> =
           Some (Inr (reshape 8 8 (parsed pyfloat rows)), \<lparr>inbuf = [], wire = w\<rparr>)
       \<and> (\<forall>i<8. \<forall>j<8. reshape 8 8 (parsed pyfloat rows) ! i ! j = parsed pyfloat rows ! (8 * i + j))"
proof -
  have "read_thermal_data pyfloat \<lparr>inbuf = ib, wire = Bytes m # map Bytes rows @ w\<rparr> =
      attempts pyfloat (Suc 9) \<lparr>inbuf = ib, wire = map Bytes [] @ Bytes m # map Bytes rows @ w\<rparr>"
    by (simp add: read_thermal_data_def max_attempts_def)
  also have "\<dots> = Some (Inr (reshape 8 8 (parsed pyfloat rows)), \<lparr>inbuf = [], wire = w\<rparr>)"
    unfolding parsed_def by (rule attempts_block) (use assms in simp_all)
  finally have run: "read_thermal_data pyfloat \<lparr>inbuf = ib, wire = Bytes m # map Bytes rows @ w\<rparr> =
      Some (Inr (reshape 8 8 (parsed pyfloat rows)), \<lparr>inbuf = [], wire = w\<rparr>)" .
  have "length (parsed pyfloat rows) = 64"
    using assms(5) by (simp add: parsed_def)
  then have "\<forall>i<8. \<forall>j<8. reshape 8 8 (parsed pyfloat rows) ! i ! j = parsed pyfloat rows ! (8 * i + j)"
    by (simp add: reshape_nth)
  with run show ?thesis by simp
qed

theorem well_formed_frame_witness:
  "read_thermal_data digit_float
     \<lparr>inbuf = [], wire = [Bytes ''Thermal data:'',
        Bytes ''1 2 3 4 5 6 7 8'', Bytes ''1 2 3 4 5 6 7 8'', Bytes ''1 2 3 4 5 6 7 8'', Bytes ''1 2 3 4 5 6 7 8'',
        Bytes ''1 2 3 4 5 6 7 8'', Bytes ''1 2 3 4 5 6 7 8'', Bytes ''1 2 3 4 5 6 7 8'', Bytes ''1 2 3 4 5 6 7 8'']\<rparr> =
   Some (Inr [[1, 2, 3, 4, 5, 6, 7, 8], [1, 2, 3, 4, 5, 6, 7, 8], [1, 2, 3, 4, 5, 6, 7, 8], [1, 2, 3, 4, 5, 6, 7, 8],
              [1, 2, 3, 4, 5, 6, 7, 8], [1, 2, 3, 4, 5, 6, 7, 8], [1, 2, 3, 4, 5, 6, 7, 8], [1, 2, 3, 4, 5, 6, 7, 8]],
         \<lparr>inbuf = [], wire = []\<rparr>)"
proof -
  let ?r = "''1 2 3 4 5 6 7 8''"
  let ?rows = "[?r, ?r, ?r, ?r, ?r, ?r, ?r, ?r]"
  have a: "\<forall>t\<in>set (concat (map tokens ?rows)). digit_float t \<noteq> None"
    by (simp add: row_1_8_tokens digit_float_def)
  have b: "length (concat (map tokens ?rows)) = 64"
    by (simp add: row_1_8_tokens)
  have c: "\<forall>b\<in>set ?rows. decode b \<noteq> None"
    by (simp add: row_1_8_decodes)
  have d: "length ?rows = 8"
    by simp
  show ?thesis
    using well_formed_frame [of "''Thermal data:''" ?rows digit_float "[]" "[]",
        OF marker_line_plain_text d c a b]
    by (simp add: rows_1_8_parsed reshape_numeral)
qed

text \<open>
  Claim C10.  Every attempt starts with \<^verbatim>\<open>reset_input_buffer()\<close>, the first one
  included, so what sits in the input buffer when the call starts has no influence on
  the result: the call gives the same result with any buffer content as with an empty
  buffer.  In the witness a whole frame of nines sits in the buffer; it is discarded and
  the frame that arrives is returned.
\<close>

theorem buffered_input_discarded:
  "attempt_body pyfloat p = attempt_body pyfloat (reset_input_buffer p)
   \<and> read_thermal_data pyfloat (p\<lparr>inbuf := b\<rparr>) = read_thermal_data pyfloat (p\<lparr>inbuf := []\<rparr>)"
proof -
  have ten: "max_attempts = Suc 9" by (simp add: max_attempts_def)
  have "read_thermal_data pyfloat (p\<lparr>inbuf := b\<rparr>) = read_thermal_data pyfloat (p\<lparr>inbuf := []\<rparr>)"
    unfolding read_thermal_data_def ten by (rule attempts_reset)
  with attempt_body_reset show ?thesis
    by (rule conjI)
qed

theorem buffered_input_discarded_witness:
  "read_thermal_data digit_float
     \<lparr>inbuf = [''Thermal data:'',
        ''9 9 9 9 9 9 9 9'', ''9 9 9 9 9 9 9 9'', ''9 9 9 9 9 9 9 9'', ''9 9 9 9 9 9 9 9'',
        ''9 9 9 9 9 9 9 9'', ''9 9 9 9 9 9 9 9'', ''9 9 9 9 9 9 9 9'', ''9 9 9 9 9 9 9 9''],
      wire = [Bytes ''Thermal data:'',
        Bytes ''1 2 3 4 5 6 7 8'', Bytes ''1 2 3 4 5 6 7 8'', Bytes ''1 2 3 4 5 6 7 8'', Bytes ''1 2 3 4 5 6 7 8'',
        Bytes ''1 2 3 4 5 6 7 8'', Bytes ''1 2 3 4 5 6 7 8'', Bytes ''1 2 3 4 5 6 7 8'', Bytes ''1 2 3 4 5 6 7 8'']\<rparr> =
   Some (Inr [[1, 2, 3, 4, 5, 6, 7, 8], [1, 2, 3, 4, 5, 6, 7, 8], [1, 2, 3, 4, 5, 6, 7, 8], [1, 2, 3, 4, 5, 6, 7, 8],
              [1, 2, 3, 4, 5, 6, 7, 8], [1, 2, 3, 4, 5, 6, 7, 8], [1, 2, 3, 4, 5, 6, 7, 8], [1, 2, 3, 4, 5, 6, 7, 8]],
         \<lparr>inbuf = [], wire = []\<rparr>)"
  using buffered_input_discarded [of digit_float
      "\<lparr>inbuf = [], wire = [Bytes ''Thermal data:'',
        Bytes ''1 2 3 4 5 6 7 8'', Bytes ''1 2 3 4 5 6 7 8'', Bytes ''1 2 3 4 5 6 7 8'', Bytes ''1 2 3 4 5 6 7 8'',
        Bytes ''1 2 3 4 5 6 7 8'', Bytes ''1 2 3 4 5 6 7 8'', Bytes ''1 2 3 4 5 6 7 8'', Bytes ''1 2 3 4 5 6 7 8'']\<rparr>"
      "[''Thermal data:'',
        ''9 9 9 9 9 9 9 9'', ''9 9 9 9 9 9 9 9'', ''9 9 9 9 9 9 9 9'', ''9 9 9 9 9 9 9 9'',
        ''9 9 9 9 9 9 9 9'', ''9 9 9 9 9 9 9 9'', ''9 9 9 9 9 9 9 9'', ''9 9 9 9 9 9 9 9'']"]
  by (simp add: frame_1_8_read)

text \<open>
  Claim C1, as amended.  On a stream without a marker line, a read that times out or
  brings a line without the marker does not end the attempt: the marker search reads
  again.  Only a read that raises ends an attempt.  So the call returns the zero frame
  when at least \<open>max_attempts\<close> reads of the stream raise, and it does not return when
  fewer do.  On a silent port every read times out and the call never returns.
\<close>

theorem no_marker_stream:
  assumes "\<forall>x\<in>set (wire p). no_marker x"
  shows "(max_attempts \<le> length (filter raises (wire p)) \<longrightarrow>
            (\<exists>p'. read_thermal_data pyfloat p = Some (Inr (zeros 8 8), p')))
       \<and> (length (filter raises (wire p)) < max_attempts \<longrightarrow> read_thermal_data pyfloat p = None)"
proof -
  obtain ib w where p: "p = \<lparr>inbuf = ib, wire = w\<rparr>"
    by (cases p)
  with assms have "\<forall>x\<in>set w. no_marker x"
    by simp
  from attempts_no_marker [OF this, of max_attempts pyfloat ib] show ?thesis
    unfolding read_thermal_data_def p by simp
qed

theorem no_marker_stream_witness:
  "\<exists>p'. read_thermal_data digit_float
      \<lparr>inbuf = [], wire = [Bytes ''noise'', Fault, Fault, Fault, Fault, Fault, Bytes ''noise'',
                            Fault, Fault, Fault, Fault, Fault]\<rparr> = Some (Inr (zeros 8 8), p')"
  using no_marker_stream [of "\<lparr>inbuf = [], wire = [Bytes ''noise'', Fault, Fault, Fault, Fault, Fault,
      Bytes ''noise'', Fault, Fault, Fault, Fault, Fault]\<rparr>" digit_float]
  by (simp add: noise_no_marker noise_not_raises Fault_raises Fault_no_marker max_attempts_def)

theorem silent_port_counterexample:
  "read_thermal_data digit_float \<lparr>inbuf = [], wire = []\<rparr> = None"
proof -
  have ten: "max_attempts = Suc 9" by (simp add: max_attempts_def)
  show ?thesis
    unfolding read_thermal_data_def ten by (rule attempts_silent)
qed

text \<open>
  Claim C7.  A frame with eight payload lines whose tokens do not number 64 uses up one
  attempt, and the next attempt starts a new marker search behind it; after
  \<open>max_attempts\<close> such frames in a row the call returns the zero frame.
\<close>

theorem wrong_total_retried:
  assumes "\<forall>blk\<in>set blocks. wrong_total blk" and "length blocks = max_attempts"
  shows "(\<forall>blk\<in>set blocks. \<forall>n b r.
            attempts pyfloat (Suc n) \<lparr>inbuf = b, wire = frame_lines blk @ r\<rparr> =
            attempts pyfloat n \<lparr>inbuf = [], wire = r\<rparr>)
       \<and> read_thermal_data pyfloat \<lparr>inbuf = ib, wire = concat (map frame_lines blocks) @ w\<rparr> =
           Some (Inr (zeros 8 8), \<lparr>inbuf = [], wire = w\<rparr>)"
proof -
  from assms(2) have ne: "blocks \<noteq> []" by (auto simp: max_attempts_def)
  have "attempts pyfloat (length blocks + 0) \<lparr>inbuf = ib, wire = concat (map frame_lines blocks) @ w\<rparr> =
      attempts pyfloat 0 \<lparr>inbuf = [], wire = w\<rparr>"
    using assms(1) ne by (rule attempts_wrong_totals)
  then have "read_thermal_data pyfloat \<lparr>inbuf = ib, wire = concat (map frame_lines blocks) @ w\<rparr> =
      Some (Inr (zeros 8 8), \<lparr>inbuf = [], wire = w\<rparr>)"
    using assms(2) by (simp add: read_thermal_data_def)
  with assms(1) show ?thesis
    by (simp add: attempts_wrong_total del: attempts.simps)
qed

theorem wrong_total_retried_witness:
  "read_thermal_data digit_float
     \<lparr>inbuf = [], wire = concat (map frame_lines (replicate 10
        (''Thermal data:'', [''1 2 3'', ''1 2 3'', ''1 2 3'', ''1 2 3'', ''1 2 3'', ''1 2 3'', ''1 2 3'', ''1 2 3''])))\<rparr> =
   Some (Inr (zeros 8 8), \<lparr>inbuf = [], wire = []\<rparr>)"
proof -
  let ?blk = "(''Thermal data:'', [''1 2 3'', ''1 2 3'', ''1 2 3'', ''1 2 3'', ''1 2 3'', ''1 2 3'', ''1 2 3'', ''1 2 3''])"
  have bad: "wrong_total ?blk"
    using row_123_decodes by (simp add: wrong_total_def marker_line_plain_text row_123_tokens)
  have "\<forall>blk\<in>set (replicate 10 ?blk). wrong_total blk"
    using bad by simp
  moreover have "length (replicate 10 ?blk) = max_attempts"
    by (simp add: max_attempts_def)
  ultimately show ?thesis
    using wrong_total_retried [of "replicate 10 ?blk" digit_float "[]" "[]"] by simp
qed

text \<open>
  Claim C8, as amended.  After a marker and seven data lines, the second marker line is
  read as the eighth payload line of the first attempt.  That attempt fails, since
  \<^verbatim>\<open>float\<close> rejects a word of the marker, and the marker line is used up: the next
  attempt passes over the payload that follows it and the call goes on with the nine
  attempts that are left on the stream behind that payload.  It returns the frame of a
  third marker when there is one, and does not return when the stream ends there.
\<close>

theorem partial_frame:
  assumes "is_marker_line m1" and "length rows = 7" and "\<forall>b\<in>set rows. decode b \<noteq> None"
    and "is_marker_line m2" and "\<exists>t\<in>set (tokens m2). pyfloat t = None"
    and "\<forall>b\<in>set payload. plain_line b"
  shows "read_thermal_data pyfloat
           \<lparr>inbuf = ib, wire = Bytes m1 # map Bytes rows @ Bytes m2 # map Bytes payload @ w\<rparr> =
         attempts pyfloat 9 \<lparr>inbuf = [], wire = w\<rparr>"
proof -
  have "attempts pyfloat (Suc (Suc 8))
           \<lparr>inbuf = ib, wire = Bytes m1 # map Bytes rows @ Bytes m2 # map Bytes payload @ w\<rparr> =
         attempts pyfloat (Suc 8) \<lparr>inbuf = [], wire = w\<rparr>"
    using assms by (rule attempts_partial_frame)
  moreover have "max_attempts = Suc (Suc 8)" and "(9::nat) = Suc 8"
    by (simp_all add: max_attempts_def)
  ultimately show ?thesis
    by (simp only: read_thermal_data_def)
qed


theorem partial_frame_witness:
  "read_thermal_data digit_float
     \<lparr>inbuf = [], wire =
        Bytes ''Thermal data:'' #
        map Bytes [''1 2 3 4 5 6 7 8'', ''1 2 3 4 5 6 7 8'', ''1 2 3 4 5 6 7 8'', ''1 2 3 4 5 6 7 8'',
                   ''1 2 3 4 5 6 7 8'', ''1 2 3 4 5 6 7 8'', ''1 2 3 4 5 6 7 8''] @
        Bytes ''Thermal data:'' #
        map Bytes [''9 9 9 9 9 9 9 9'', ''9 9 9 9 9 9 9 9'', ''9 9 9 9 9 9 9 9'', ''9 9 9 9 9 9 9 9'',
                   ''9 9 9 9 9 9 9 9'', ''9 9 9 9 9 9 9 9'', ''9 9 9 9 9 9 9 9'', ''9 9 9 9 9 9 9 9''] @
        Bytes ''Thermal data:'' #
        map Bytes [''1 2 3 4 5 6 7 8'', ''1 2 3 4 5 6 7 8'', ''1 2 3 4 5 6 7 8'', ''1 2 3 4 5 6 7 8'',
                   ''1 2 3 4 5 6 7 8'', ''1 2 3 4 5 6 7 8'', ''1 2 3 4 5 6 7 8'', ''1 2 3 4 5 6 7 8'']\<rparr> =
   Some (Inr [[1, 2, 3, 4, 5, 6, 7, 8], [1, 2, 3, 4, 5, 6, 7, 8], [1, 2, 3, 4, 5, 6, 7, 8], [1, 2, 3, 4, 5, 6, 7, 8],
              [1, 2, 3, 4, 5, 6, 7, 8], [1, 2, 3, 4, 5, 6, 7, 8], [1, 2, 3, 4, 5, 6, 7, 8], [1, 2, 3, 4, 5, 6, 7, 8]],
         \<lparr>inbuf = [], wire = []\<rparr>)"
proof -
  let ?r = "''1 2 3 4 5 6 7 8''"
  let ?n = "''9 9 9 9 9 9 9 9''"
  let ?rows = "[?r, ?r, ?r, ?r, ?r, ?r, ?r, ?r]"
  let ?third = "Bytes ''Thermal data:'' # map Bytes ?rows"
  have a: "\<forall>b\<in>set [?r, ?r, ?r, ?r, ?r, ?r, ?r]. decode b \<noteq> None"
    by (simp add: row_1_8_decodes)
  have b: "\<forall>b\<in>set [?n, ?n, ?n, ?n, ?n, ?n, ?n, ?n]. plain_line b"
    by (simp add: row_9_plain)
  have c: "length [?r, ?r, ?r, ?r, ?r, ?r, ?r] = 7"
    by simp
  have first: "read_thermal_data digit_float
      \<lparr>inbuf = [], wire = Bytes ''Thermal data:'' # map Bytes [?r, ?r, ?r, ?r, ?r, ?r, ?r] @
         Bytes ''Thermal data:'' # map Bytes [?n, ?n, ?n, ?n, ?n, ?n, ?n, ?n] @ ?third\<rparr> =
      attempts digit_float 9 \<lparr>inbuf = [], wire = ?third\<rparr>"
    by (rule partial_frame [OF marker_line_plain_text c a marker_line_plain_text marker_line_rejected b])
  have t: "\<forall>t\<in>set (concat (map tokens ?rows)). digit_float t \<noteq> None"
    by (simp add: row_1_8_tokens digit_float_def)
  have l: "length (concat (map tokens ?rows)) = 64"
    by (simp add: row_1_8_tokens)
  have d: "\<forall>b\<in>set ?rows. decode b \<noteq> None"
    by (simp add: row_1_8_decodes)
  have "attempts digit_float (Suc 8) \<lparr>inbuf = [], wire = map Bytes [] @ Bytes ''Thermal data:'' # map Bytes ?rows @ []\<rparr> =
      Some (Inr (reshape 8 8 (map (the \<circ> digit_float) (concat (map tokens ?rows)))), \<lparr>inbuf = [], wire = []\<rparr>)"
    by (rule attempts_block) (use marker_line_plain_text d t l in simp_all)
  moreover have "(9::nat) = Suc 8"
    by simp
  ultimately have "attempts digit_float 9 \<lparr>inbuf = [], wire = ?third\<rparr> =
      Some (Inr (reshape 8 8 (parsed digit_float ?rows)), \<lparr>inbuf = [], wire = []\<rparr>)"
    by (simp only: parsed_def append_Nil append_Nil2 list.map)
  with first show ?thesis
    by (simp add: rows_1_8_parsed reshape_numeral)
qed

theorem partial_frame_counterexample:
  "read_thermal_data digit_float
     \<lparr>inbuf = [], wire =
        Bytes ''Thermal data:'' #
        map Bytes [''1 2 3 4 5 6 7 8'', ''1 2 3 4 5 6 7 8'', ''1 2 3 4 5 6 7 8'', ''1 2 3 4 5 6 7 8'',
                   ''1 2 3 4 5 6 7 8'', ''1 2 3 4 5 6 7 8'', ''1 2 3 4 5 6 7 8''] @
        Bytes ''Thermal data:'' #
        map Bytes [''9 9 9 9 9 9 9 9'', ''9 9 9 9 9 9 9 9'', ''9 9 9 9 9 9 9 9'', ''9 9 9 9 9 9 9 9'',
                   ''9 9 9 9 9 9 9 9'', ''9 9 9 9 9 9 9 9'', ''9 9 9 9 9 9 9 9'', ''9 9 9 9 9 9 9 9'']\<rparr> = None"
proof -
  let ?r = "''1 2 3 4 5 6 7 8''"
  let ?n = "''9 9 9 9 9 9 9 9''"
  have a: "\<forall>b\<in>set [?r, ?r, ?r, ?r, ?r, ?r, ?r]. decode b \<noteq> None"
    by (simp add: row_1_8_decodes)
  have b: "\<forall>b\<in>set [?n, ?n, ?n, ?n, ?n, ?n, ?n, ?n]. plain_line b"
    by (simp add: row_9_plain)
  have c: "length [?r, ?r, ?r, ?r, ?r, ?r, ?r] = 7"
    by simp
  have "attempts digit_float (Suc (Suc 8))
      \<lparr>inbuf = [], wire = Bytes ''Thermal data:'' # map Bytes [?r, ?r, ?r, ?r, ?r, ?r, ?r] @
         Bytes ''Thermal data:'' # map Bytes [?n, ?n, ?n, ?n, ?n, ?n, ?n, ?n] @ []\<rparr> =
      attempts digit_float (Suc 8) \<lparr>inbuf = [], wire = []\<rparr>"
    by (rule attempts_partial_frame [OF marker_line_plain_text c a marker_line_plain_text marker_line_rejected b])
  moreover have "max_attempts = Suc (Suc 8)"
    by (simp add: max_attempts_def)
  ultimately show ?thesis
    by (simp only: read_thermal_data_def attempts_silent append_Nil2)
qed

text \<open>
  Claim C5.  \<open>interpolate_thermal_data\<close> asks \<open>griddata\<close> for values on the 80 by 80
  grid that \<^verbatim>\<open>meshgrid\<close> makes from two \<^verbatim>\<open>linspace(0, 7, 80)\<close> axes, and returns
  \<^verbatim>\<open>np.zeros((80, 80))\<close> when \<open>griddata\<close> raises.  Provided \<open>griddata\<close> answers with an
  array of the shape of the query grid, as scipy documents, the result is 80 by 80 on
  both paths, for every input frame.
\<close>

theorem upsample_shape:
  assumes contract: "\<And>pts vals Xi Yi g.
      griddata pts vals (Xi, Yi) = Inr g \<Longrightarrow> has_shape 80 80 Xi \<Longrightarrow> has_shape 80 80 g"
  shows "has_shape 80 80 (interpolate_thermal_data griddata thermal_data)
       \<and> ((\<exists>e. griddata (ravel (fst (meshgrid (linspace 0 7 8) (linspace 0 7 8))),
                          ravel (snd (meshgrid (linspace 0 7 8) (linspace 0 7 8))))
                         (ravel thermal_data) (meshgrid (linspace 0 7 80) (linspace 0 7 80)) = Inl e)
            \<longrightarrow> interpolate_thermal_data griddata thermal_data = zeros 80 80)"
proof -
  let ?src = "meshgrid (linspace 0 7 8) (linspace 0 7 8)"
  let ?dst = "meshgrid (linspace 0 7 80) (linspace 0 7 80)"
  let ?call = "griddata (ravel (fst ?src), ravel (snd ?src)) (ravel thermal_data) ?dst"
  have eq: "interpolate_thermal_data griddata thermal_data =
      (case ?call of Inr interpolated_data \<Rightarrow> interpolated_data | Inl e \<Rightarrow> zeros 80 80)"
    by (simp add: interpolate_thermal_data_def Let_def case_prod_beta)
  have shape: "has_shape 80 80 (fst ?dst)"
    using meshgrid_shape(1) [of "linspace 0 7 80" "linspace 0 7 80"] by (simp add: linspace_length)
  show ?thesis
  proof (cases ?call)
    case (Inl e)
    with eq show ?thesis by (simp add: zeros_shape)
  next
    case (Inr g)
    then have "griddata (ravel (fst ?src), ravel (snd ?src)) (ravel thermal_data) (fst ?dst, snd ?dst) = Inr g"
      by simp
    from contract [OF this shape] Inr eq show ?thesis by simp
  qed
qed

theorem upsample_shape_witness:
  "has_shape 80 80 (interpolate_thermal_data flat_griddata (zeros 8 8))"
proof -
  have "\<And>pts vals Xi Yi g.
      flat_griddata pts vals (Xi, Yi) = Inr g \<Longrightarrow> has_shape 80 80 Xi \<Longrightarrow> has_shape 80 80 g"
    by (auto simp: flat_griddata_def has_shape_def list_all_iff)
  from upsample_shape [of flat_griddata "zeros 8 8", OF this] show ?thesis by simp
qed






end
